theory Spec2Isabelle
  imports Main
begin

section \<open>The user directory\<close>

text \<open>
  The routes of \<^verbatim>\<open>routes/friends.js\<close> work on Mongoose documents of the \<^verbatim>\<open>User\<close>
  model. A stored user is a record of the fields the routes read and write. An
  identifier is a well-formed ObjectId; \<^verbatim>\<open>toString()\<close> is injective on ObjectIds, so an
  identifier and its string are the same value here. The relationship fields are arrays: order and
  repetition are kept, as \<^verbatim>\<open>push\<close> and \<^verbatim>\<open>filter\<close> keep them.
\<close>

type_synonym user_id = nat

record user =
  uid :: user_id
  username :: string
  password :: string
  interests :: "string list"
  friends :: "user_id list"
  sentFriendRequests :: "user_id list"
  pendingFriendRequests :: "user_id list"
  version :: nat

text \<open>
  The field \<open>version\<close> is the version key \<^verbatim>\<open>__v\<close> that Mongoose keeps in every document
  of a schema that does not switch it off.
\<close>

text \<open>The collection, in its natural order (the order \<^verbatim>\<open>User.find\<close> returns).\<close>

type_synonym directory = "user list"

text \<open>A failed request: the status code and the message of the JSON body.\<close>

datatype http_error = HttpError nat string

definition findById :: "directory \<Rightarrow> user_id \<Rightarrow> user option" where
  "findById db i = find (\<lambda>u. uid u = i) db"

text \<open>
  \<^verbatim>\<open>populate\<close> replaces each identifier of an array by the document it refers to, in
  the array's order; an identifier that refers to no document is dropped.
\<close>

definition populate :: "directory \<Rightarrow> user_id list \<Rightarrow> user list" where
  "populate db ids = List.map_filter (findById db) ids"

section \<open>Recommendations\<close>

text \<open>
  A document returned by \<^verbatim>\<open>User.find(...).populate('friends')\<close> is a JavaScript object:
  every query builds new objects, and \<^verbatim>\<open>new Set\<close> compares objects by identity. The
  field \<open>ref\<close> is that identity; a query numbers the objects it builds from the first
  free reference on.
\<close>

record document =
  ref :: nat
  doc :: user
  populated_friends :: "user list"

definition find_populated :: "nat \<Rightarrow> directory \<Rightarrow> (user \<Rightarrow> bool) \<Rightarrow> document list" where
  "find_populated next_ref db query =
     map (\<lambda>(r, u). \<lparr>ref = r, doc = u, populated_friends = populate db (friends u)\<rparr>)
       (enumerate next_ref (filter query db))"

text \<open>\<^verbatim>\<open>[...new Set(xs)]\<close>: the first occurrence of every object, in insertion order.\<close>

fun set_spread :: "document list \<Rightarrow> document list" where
  "set_spread [] = []"
| "set_spread (d # ds) = d # set_spread (filter (\<lambda>e. ref e \<noteq> ref d) ds)"

record recommendation =
  rec_user :: document
  mutualFriends :: nat
  mutualInterests :: nat
  score :: nat

text \<open>The callback of \<^verbatim>\<open>allPotentialUsers.map\<close>.\<close>

definition score_candidate :: "user \<Rightarrow> user_id list \<Rightarrow> document \<Rightarrow> recommendation" where
  "score_candidate subject friendIds potential =
     (let mf = length (filter (\<lambda>friend. uid friend \<in> set friendIds) (populated_friends potential));
          mi = length (filter (\<lambda>interest. interest \<in> set (interests (doc potential)))
                         (interests subject))
      in \<lparr>rec_user = potential, mutualFriends = mf, mutualInterests = mi,
          score = (mf * 2) + mi\<rparr>)"

text \<open>The comparator \<^verbatim>\<open>(a, b) => b.score - a.score\<close>.\<close>

definition by_score_desc :: "recommendation \<Rightarrow> recommendation \<Rightarrow> int" where
  "by_score_desc a b = int (score b) - int (score a)"

text \<open>
  \<^verbatim>\<open>Array.prototype.sort\<close> with a comparator is a stable sort: elements the comparator
  does not separate keep their order. Insertion from the right, in front of the first
  element that does not have to precede, is such a sort.
\<close>

fun place :: "('a \<Rightarrow> 'a \<Rightarrow> int) \<Rightarrow> 'a \<Rightarrow> 'a list \<Rightarrow> 'a list" where
  "place cmp x [] = [x]"
| "place cmp x (y # ys) = (if cmp x y \<le> 0 then x # y # ys else y # place cmp x ys)"

definition array_sort :: "('a \<Rightarrow> 'a \<Rightarrow> int) \<Rightarrow> 'a list \<Rightarrow> 'a list" where
  "array_sort cmp xs = foldr (place cmp) xs []"

definition shares_interest :: "user \<Rightarrow> user \<Rightarrow> bool" where
  "shares_interest subject u = list_ex (\<lambda>i. i \<in> set (interests subject)) (interests u)"

definition has_mutual_friend :: "user_id list \<Rightarrow> document \<Rightarrow> bool" where
  "has_mutual_friend friendIds potentialFriend =
     (0 < length (filter (\<lambda>friend. uid friend \<in> set friendIds)
                    (populated_friends potentialFriend)))"

definition excludeIds_of :: "directory \<Rightarrow> user \<Rightarrow> user_id list" where
  "excludeIds_of db subject =
     map uid (populate db (friends subject))
     @ map uid (populate db (sentFriendRequests subject))
     @ map uid (populate db (pendingFriendRequests subject))
     @ [uid subject]"

text \<open>The two pools, each behind its guard, and their combination.\<close>

definition similarInterestsUsers :: "directory \<Rightarrow> user \<Rightarrow> document list" where
  "similarInterestsUsers db subject =
     (if interests subject \<noteq> []
      then find_populated 0 db
             (\<lambda>u. uid u \<notin> set (excludeIds_of db subject) \<and> shares_interest subject u)
      else [])"

definition mutualFriendsUsers :: "nat \<Rightarrow> directory \<Rightarrow> user \<Rightarrow> document list" where
  "mutualFriendsUsers next_ref db subject =
     (let friendIds = map uid (populate db (friends subject))
      in if friendIds \<noteq> []
         then filter (has_mutual_friend friendIds)
                (find_populated next_ref db (\<lambda>u. uid u \<notin> set (excludeIds_of db subject)))
         else [])"

definition allPotentialUsers :: "directory \<Rightarrow> user \<Rightarrow> document list" where
  "allPotentialUsers db subject =
     set_spread (similarInterestsUsers db subject
                 @ mutualFriendsUsers (length (similarInterestsUsers db subject)) db subject)"

text \<open>
  \<^verbatim>\<open>GET /recommendations\<close>. A caller that is not in the collection makes
  \<^verbatim>\<open>user.friends\<close> throw, which the handler turns into status 500.
\<close>

definition recommendations :: "directory \<Rightarrow> user_id \<Rightarrow> http_error + recommendation list" where
  "recommendations db reqUserId =
     (case findById db reqUserId of
        None \<Rightarrow> Inl (HttpError 500 ''Error getting recommendations'')
      | Some subject \<Rightarrow>
          Inr (take 5
                 (array_sort by_score_desc
                    (filter (\<lambda>r. 0 < score r)
                       (map (score_candidate subject (map uid (populate db (friends subject))))
                          (allPotentialUsers db subject))))))"

section \<open>The friend-request lifecycle\<close>

text \<open>
  A handler loads the two users as two in-memory documents, changes them, and saves
  both, one after the other. \<^verbatim>\<open>save()\<close> sends the changes made to the document to the
  stored user with the document's \<^verbatim>\<open>_id\<close> and adds one to its version key:
  \<^item> a \<^verbatim>\<open>push\<close> appends to the stored array, whatever the stored version is;
  \<^item> an array that was assigned and differs from the loaded one replaces the stored
    array, provided the stored version is still the version the document was loaded
    with; otherwise \<^verbatim>\<open>save()\<close> throws a VersionError and stores nothing;
  \<^item> an array that was assigned the value it had is no change.
  A document is stale when the stored version is no longer its own. That happens in a
  handler when both documents are copies of one stored user and the first has been
  saved.
\<close>

definition stale :: "directory \<Rightarrow> user \<Rightarrow> bool" where
  "stale db d = (map_option version (findById db (uid d)) \<noteq> Some (version d))"

definition store :: "user_id \<Rightarrow> (user \<Rightarrow> user) \<Rightarrow> directory \<Rightarrow> directory" where
  "store i change db =
     map (\<lambda>u. if uid u = i then (change u)\<lparr>version := Suc (version u)\<rparr> else u) db"

text \<open>
  \<open>save_assigned\<close> saves a document whose only change is an assigned array;
  \<open>save_mixed\<close> saves a document with an assigned array and a \<^verbatim>\<open>push\<close>. The flag says
  that the assigned array differs from the loaded one. The result \<open>None\<close> is the
  VersionError.
\<close>

definition save_assigned ::
  "user \<Rightarrow> bool \<Rightarrow> (user \<Rightarrow> user) \<Rightarrow> directory \<Rightarrow> directory option" where
  "save_assigned d modified assign db =
     (if \<not> modified then Some db
      else if stale db d then None
      else Some (store (uid d) assign db))"

definition save_mixed ::
  "user \<Rightarrow> bool \<Rightarrow> (user \<Rightarrow> user) \<Rightarrow> (user \<Rightarrow> user) \<Rightarrow> directory \<Rightarrow> directory option" where
  "save_mixed d modified assign push db =
     (if modified \<and> stale db d then None
      else Some (store (uid d) (\<lambda>u. push (if modified then assign u else u)) db))"

record request_body =
  message :: string
  status :: string

text \<open>
  \<^verbatim>\<open>POST /request/:userId\<close>. The route parameter is a string: \<open>None\<close> stands for a
  string that is no ObjectId, on which \<^verbatim>\<open>findById\<close> throws a CastError (status 500).
  The receiver is tested first; a caller that is not in the collection makes
  \<^verbatim>\<open>sender.friends\<close> throw (status 500). To cancel, the handler assigns the two filtered
  arrays and saves the sender, then the receiver; to request, it pushes onto both arrays
  and saves the receiver, then the sender. An exception leaves what was saved before it.
\<close>

definition send_request ::
  "directory \<Rightarrow> user_id \<Rightarrow> user_id option \<Rightarrow> (http_error + request_body) \<times> directory" where
  "send_request db reqUserId paramUserId =
     (case paramUserId of
        None \<Rightarrow> (Inl (HttpError 500 ''Error managing friend request''), db)
      | Some rid \<Rightarrow>
     (case findById db rid of
        None \<Rightarrow> (Inl (HttpError 404 ''User not found''), db)
      | Some receiver \<Rightarrow>
     (case findById db reqUserId of
        None \<Rightarrow> (Inl (HttpError 500 ''Error managing friend request''), db)
      | Some sender \<Rightarrow>
          if uid receiver \<in> set (friends sender)
          then (Inl (HttpError 400 ''Already friends''), db)
          else if uid receiver \<in> set (sentFriendRequests sender)
          then
            (let sent' = filter (\<lambda>i. i \<noteq> uid receiver) (sentFriendRequests sender);
                 pending' = filter (\<lambda>i. i \<noteq> uid sender) (pendingFriendRequests receiver)
             in case save_assigned sender (sent' \<noteq> sentFriendRequests sender)
                       (\<lambda>u. u\<lparr>sentFriendRequests := sent'\<rparr>) db of
                  None \<Rightarrow> (Inl (HttpError 500 ''Error managing friend request''), db)
                | Some db1 \<Rightarrow>
                    (case save_assigned receiver (pending' \<noteq> pendingFriendRequests receiver)
                            (\<lambda>u. u\<lparr>pendingFriendRequests := pending'\<rparr>) db1 of
                       None \<Rightarrow> (Inl (HttpError 500 ''Error managing friend request''), db1)
                     | Some db2 \<Rightarrow>
                         (Inr \<lparr>message = ''Friend request cancelled'', status = ''cancelled''\<rparr>,
                          db2)))
          else (Inr \<lparr>message = ''Friend request sent'', status = ''requested''\<rparr>,
                store (uid sender)
                  (\<lambda>u. u\<lparr>sentFriendRequests := sentFriendRequests u @ [uid receiver]\<rparr>)
                  (store (uid receiver)
                     (\<lambda>u. u\<lparr>pendingFriendRequests := pendingFriendRequests u @ [uid sender]\<rparr>)
                     db)))))"

text \<open>
  \<^verbatim>\<open>POST /accept/:userId\<close>. The caller is the receiver of the request, the named user
  its sender; only the sender is tested. The handler assigns the two filtered arrays,
  pushes each user onto the other's friends, and saves the receiver, then the sender.
\<close>

definition accept_request ::
  "directory \<Rightarrow> user_id \<Rightarrow> user_id option \<Rightarrow> (http_error + string) \<times> directory" where
  "accept_request db reqUserId paramUserId =
     (case paramUserId of
        None \<Rightarrow> (Inl (HttpError 500 ''Error accepting friend request''), db)
      | Some sid \<Rightarrow>
     (case findById db sid of
        None \<Rightarrow> (Inl (HttpError 404 ''User not found''), db)
      | Some sender \<Rightarrow>
     (case findById db reqUserId of
        None \<Rightarrow> (Inl (HttpError 500 ''Error accepting friend request''), db)
      | Some receiver \<Rightarrow>
          (let pending' = filter (\<lambda>i. i \<noteq> uid sender) (pendingFriendRequests receiver);
               sent' = filter (\<lambda>i. i \<noteq> uid receiver) (sentFriendRequests sender)
           in case save_mixed receiver (pending' \<noteq> pendingFriendRequests receiver)
                     (\<lambda>u. u\<lparr>pendingFriendRequests := pending'\<rparr>)
                     (\<lambda>u. u\<lparr>friends := friends u @ [uid sender]\<rparr>) db of
                None \<Rightarrow> (Inl (HttpError 500 ''Error accepting friend request''), db)
              | Some db1 \<Rightarrow>
                  (case save_mixed sender (sent' \<noteq> sentFriendRequests sender)
                          (\<lambda>u. u\<lparr>sentFriendRequests := sent'\<rparr>)
                          (\<lambda>u. u\<lparr>friends := friends u @ [uid receiver]\<rparr>) db1 of
                     None \<Rightarrow> (Inl (HttpError 500 ''Error accepting friend request''), db1)
                   | Some db2 \<Rightarrow> (Inr ''Friend request accepted'', db2))))))"

text \<open>
  What the directory says about requests and friendships, with the two request arrays
  read as the sets the data model takes them for.
\<close>

definition request_state ::
  "directory \<Rightarrow> user_id \<Rightarrow> (string list \<times> user_id list \<times> user_id set \<times> user_id set) option" where
  "request_state db i =
     map_option (\<lambda>u. (interests u, friends u, set (sentFriendRequests u),
                       set (pendingFriendRequests u)))
       (findById db i)"

text \<open>
  The data model takes a user's pending requests for the inverse of the other users'
  sent requests. For two different users that is the following property of the
  directory.
\<close>

definition mirrored :: "directory \<Rightarrow> bool" where
  "mirrored db =
     (\<forall>a b ua ub. a \<noteq> b \<longrightarrow> findById db a = Some ua \<longrightarrow> findById db b = Some ub \<longrightarrow>
        (b \<in> set (sentFriendRequests ua) \<longleftrightarrow> a \<in> set (pendingFriendRequests ub)))"

section \<open>User search\<close>

text \<open>
  A search hit is the stored user without its password (\<^verbatim>\<open>select('-password')\<close>), with
  the \<^verbatim>\<open>requestStatus\<close> the handler adds.
\<close>

record search_hit =
  hit_id :: user_id
  hit_username :: string
  hit_interests :: "string list"
  hit_friends :: "user_id list"
  hit_sentFriendRequests :: "user_id list"
  hit_pendingFriendRequests :: "user_id list"
  hit_version :: nat
  requestStatus :: string

text \<open>
  The calls a handler makes to the directory: \<^verbatim>\<open>findById\<close>, and \<^verbatim>\<open>find\<close> with the
  regular expression and its options, the identifier excluded and the limit.
\<close>

datatype directory_call = FindById user_id | Find string string user_id nat

definition enhance :: "user \<Rightarrow> user \<Rightarrow> search_hit" where
  "enhance currentUser u =
     \<lparr>hit_id = uid u, hit_username = username u, hit_interests = interests u,
      hit_friends = friends u, hit_sentFriendRequests = sentFriendRequests u,
      hit_pendingFriendRequests = pendingFriendRequests u, hit_version = version u,
      requestStatus =
        (if uid u \<in> set (sentFriendRequests currentUser) then ''requested''
         else if uid u \<in> set (friends currentUser) then ''friend'' else ''none'')\<rparr>"

text \<open>
  \<^verbatim>\<open>GET /search\<close>. The query parameter may be absent. The meaning of a regular
  expression is the database's: \<open>regex\<close> gives, for a pattern and its options, the
  predicate on user names, or nothing when the pattern is rejected (the query then
  throws). A caller that is not in the collection makes the \<^verbatim>\<open>map\<close> callback throw, if
  there is a user to call it on.
\<close>

definition search ::
  "(string \<Rightarrow> string \<Rightarrow> (string \<Rightarrow> bool) option) \<Rightarrow> directory \<Rightarrow> user_id \<Rightarrow> string option
     \<Rightarrow> directory_call list \<times> (http_error + search_hit list)" where
  "search regex db reqUserId username_param =
     (case username_param of
        None \<Rightarrow> ([], Inr [])
      | Some searchTerm \<Rightarrow>
          if searchTerm = [] then ([], Inr [])
          else
            (let calls = [FindById reqUserId, Find (''^'' @ searchTerm) ''i'' reqUserId 10]
             in case regex (''^'' @ searchTerm) ''i'' of
                  None \<Rightarrow> (calls, Inl (HttpError 500 ''Error searching users''))
                | Some matches \<Rightarrow>
                    (let users = take 10 (filter (\<lambda>u. matches (username u) \<and> uid u \<noteq> reqUserId) db)
                     in case findById db reqUserId of
                          None \<Rightarrow>
                            (calls, if users = [] then Inr []
                                    else Inl (HttpError 500 ''Error searching users''))
                        | Some currentUser \<Rightarrow> (calls, Inr (map (enhance currentUser) users)))))"

section \<open>Example directories\<close>

definition mk_user ::
  "user_id \<Rightarrow> string \<Rightarrow> string list \<Rightarrow> user_id list \<Rightarrow> user_id list \<Rightarrow> user_id list \<Rightarrow> user" where
  "mk_user i n is fs ss ps =
     \<lparr>uid = i, username = n, password = ''secret'', interests = is, friends = fs,
      sentFriendRequests = ss, pendingFriendRequests = ps, version = 0\<rparr>"

definition alice :: user where "alice = mk_user 1 ''alice'' [''chess'', ''go''] [2] [5] [6]"
definition bob :: user where "bob = mk_user 2 ''bob'' [''go''] [1, 3, 4] [] []"
definition carol :: user where "carol = mk_user 3 ''carol'' [''chess''] [2] [] []"
definition dave :: user where "dave = mk_user 4 ''dave'' [] [2] [] []"
definition erin :: user where "erin = mk_user 5 ''erin'' [''chess'', ''go''] [] [] [1]"
definition frank :: user where "frank = mk_user 6 ''frank'' [''chess''] [] [1] []"
definition grace :: user where "grace = mk_user 7 ''grace'' [''go'', ''chess''] [] [] []"
definition heidi :: user where "heidi = mk_user 8 ''heidi'' [''poker''] [] [] []"
definition ivan :: user where "ivan = mk_user 9 ''ivan'' [''go''] [] [] []"
definition judy :: user where "judy = mk_user 10 ''judy'' [''chess''] [] [] []"
definition kim :: user where "kim = mk_user 11 ''kim'' [] [] [] []"

definition example_db :: directory where
  "example_db = [alice, bob, carol, dave, erin, frank, grace, heidi, ivan, judy, kim]"

definition document_of :: "nat \<Rightarrow> user \<Rightarrow> user list \<Rightarrow> document" where
  "document_of r u fs = \<lparr>ref = r, doc = u, populated_friends = fs\<rparr>"

definition example_out :: "recommendation list" where
  "example_out =
     [score_candidate alice [2] (document_of 0 carol [bob]),
      score_candidate alice [2] (document_of 4 carol [bob]),
      score_candidate alice [2] (document_of 1 grace []),
      score_candidate alice [2] (document_of 5 dave [bob]),
      score_candidate alice [2] (document_of 2 ivan [])]"

text \<open>
  A candidate that shares an interest with the subject and has a friend in common
  with it.
\<close>

definition ann :: user where "ann = mk_user 1 ''ann'' [''chess''] [2] [] []"
definition ben :: user where "ben = mk_user 2 ''ben'' [] [1, 3] [] []"
definition cat :: user where "cat = mk_user 3 ''cat'' [''chess''] [2] [] []"

definition overlap_db :: directory where
  "overlap_db = [ann, ben, cat]"

text \<open>A subject whose interests array holds the same string twice.\<close>

definition sam :: user where "sam = mk_user 1 ''sam'' [''chess'', ''chess''] [] [] []"
definition tom :: user where "tom = mk_user 2 ''tom'' [''chess''] [] [] []"

definition repeat_db :: directory where
  "repeat_db = [sam, tom]"

definition repeat_rec :: recommendation where
  "repeat_rec = score_candidate sam [] (document_of 0 tom [])"

text \<open>
  The count of mutual interests in the words of the specification: the size of the
  intersection of the two interest sets.
\<close>

definition spec_mutualInterestCount :: "user \<Rightarrow> user \<Rightarrow> nat" where
  "spec_mutualInterestCount subject candidate =
     card (set (interests candidate) \<inter> set (interests subject))"

text \<open>
  A stand-in for the database's regular expressions on patterns \<^verbatim>\<open>^word\<close> without
  metacharacters: the user name starts with the word, letters compared without regard
  to case when the options are \<^verbatim>\<open>i\<close>.
\<close>

definition lower :: "char \<Rightarrow> char" where
  "lower c =
     (let n = (of_char c :: nat) in if 65 \<le> n \<and> n \<le> 90 then char_of (n + 32) else c)"

definition literal_regex :: "string \<Rightarrow> string \<Rightarrow> (string \<Rightarrow> bool) option" where
  "literal_regex pattern opts =
     Some (\<lambda>name.
       if opts = ''i''
       then map lower (take (length pattern - 1) name) = map lower (drop 1 pattern)
       else take (length pattern - 1) name = drop 1 pattern)"

text \<open>A directory after one registration.\<close>

definition solo :: user where "solo = mk_user 1 ''solo'' [] [] [] []"

definition solo_db :: directory where
  "solo_db = [solo]"

text \<open>A user with two requests out, to two users who have them pending.\<close>

definition una :: user where "una = mk_user 1 ''una'' [] [] [2, 3] []"
definition vic :: user where "vic = mk_user 2 ''vic'' [] [] [] [1]"
definition wes :: user where "wes = mk_user 3 ''wes'' [] [] [] [1]"

definition order_db :: directory where
  "order_db = [una, vic, wes]"

text \<open>
  A directory in which a user has a request pending that the other user's array of
  sent requests does not hold.
\<close>

definition xan :: user where "xan = mk_user 1 ''xan'' [] [] [] []"
definition yul :: user where "yul = mk_user 2 ''yul'' [] [] [] [1]"

definition skew_db :: directory where
  "skew_db = [xan, yul]"

section \<open>Facts about the directory\<close>

lemma findById_Some: "findById db i = Some u \<Longrightarrow> u \<in> set db \<and> uid u = i"
  by (auto simp: findById_def find_Some_iff)

lemma populate_ids:
  "set (map uid (populate db ids)) = {i \<in> set ids. \<exists>u \<in> set db. uid u = i}"
proof (induction ids)
  case Nil
  show ?case by (simp add: populate_def)
next
  case (Cons i ids)
  show ?case
  proof (cases "findById db i")
    case None
    then have "\<not> (\<exists>u \<in> set db. uid u = i)"
      by (auto simp: findById_def find_None_iff)
    with None Cons show ?thesis
      by (auto simp: populate_def)
  next
    case (Some v)
    then have "v \<in> set db" "uid v = i"
      using findById_Some by auto
    with Some Cons show ?thesis
      by (auto simp: populate_def)
  qed
qed

lemma findById_store:
  assumes "\<And>u. uid (f u) = uid u"
  shows "findById (store i f db) j =
           map_option (\<lambda>u. if uid u = i then (f u)\<lparr>version := Suc (version u)\<rparr> else u)
             (findById db j)"
  using assms by (induction db) (auto simp: findById_def store_def)

lemma take_filter_holds: "x \<in> set (take n (filter P xs)) \<Longrightarrow> P x"
proof -
  assume "x \<in> set (take n (filter P xs))"
  then have "x \<in> set (filter P xs)" by (rule in_set_takeD)
  then show "P x" by simp
qed

section \<open>Facts about the recommendation pipeline\<close>

lemma set_spread_subset: "set (set_spread ds) \<subseteq> set ds"
  by (induction ds rule: set_spread.induct) auto

lemma find_populated_member:
  assumes "d \<in> set (find_populated n db q)"
  shows "doc d \<in> set db \<and> q (doc d) \<and> populated_friends d = populate db (friends (doc d))"
proof -
  have "map doc (find_populated n db q) = filter q db"
    by (simp add: find_populated_def o_def split_beta)
  moreover from assms have "doc d \<in> set (map doc (find_populated n db q))"
    by simp
  ultimately have "doc d \<in> set (filter q db)"
    by simp
  moreover from assms have "populated_friends d = populate db (friends (doc d))"
    by (auto simp: find_populated_def)
  ultimately show ?thesis by simp
qed

lemma allPotentialUsers_member:
  assumes "d \<in> set (allPotentialUsers db subject)"
  shows "doc d \<in> set db \<and> uid (doc d) \<notin> set (excludeIds_of db subject)"
proof -
  let ?sim = "similarInterestsUsers db subject"
  let ?mut = "mutualFriendsUsers (length ?sim) db subject"
  from assms have "d \<in> set (?sim @ ?mut)"
    using set_spread_subset unfolding allPotentialUsers_def by blast
  then consider "d \<in> set ?sim" | "d \<in> set ?mut"
    by auto
  then show ?thesis
  proof cases
    case 1
    then show ?thesis
      by (auto simp: similarInterestsUsers_def split: if_splits dest: find_populated_member)
  next
    case 2
    then show ?thesis
      by (auto simp: mutualFriendsUsers_def Let_def split: if_splits dest: find_populated_member)
  qed
qed

lemma set_place: "set (place cmp x ys) = insert x (set ys)"
  by (induction ys) auto

lemma set_array_sort: "set (array_sort cmp xs) = set xs"
  by (induction xs) (auto simp: array_sort_def set_place)

lemma place_desc:
  "sorted_wrt (\<lambda>a b. score b \<le> score a) ys \<Longrightarrow>
   sorted_wrt (\<lambda>a b. score b \<le> score a) (place by_score_desc x ys)"
  by (induction ys) (auto simp: set_place by_score_desc_def)

lemma array_sort_desc:
  "sorted_wrt (\<lambda>a b. score b \<le> score a) (array_sort by_score_desc xs)"
  by (induction xs) (auto simp: array_sort_def place_desc)

lemma score_candidate_sel:
  "rec_user (score_candidate s f d) = d"
  "mutualFriends (score_candidate s f d) =
     length (filter (\<lambda>friend. uid friend \<in> set f) (populated_friends d))"
  "mutualInterests (score_candidate s f d) =
     length (filter (\<lambda>i. i \<in> set (interests (doc d))) (interests s))"
  "score (score_candidate s f d) =
     mutualFriends (score_candidate s f d) * 2 + mutualInterests (score_candidate s f d)"
  by (simp_all add: score_candidate_def Let_def)

lemma recommendations_member:
  assumes "recommendations db me = Inr out" "r \<in> set out"
  shows "\<exists>subject d. findById db me = Some subject
           \<and> d \<in> set (allPotentialUsers db subject)
           \<and> r = score_candidate subject (map uid (populate db (friends subject))) d
           \<and> 0 < score r"
proof (cases "findById db me")
  case None
  with assms show ?thesis by (simp add: recommendations_def)
next
  case (Some subject)
  with assms have "r \<in> set (array_sort by_score_desc
                    (filter (\<lambda>r. 0 < score r)
                       (map (score_candidate subject (map uid (populate db (friends subject))))
                          (allPotentialUsers db subject))))"
    by (auto simp: recommendations_def dest: in_set_takeD)
  then show ?thesis using Some by (auto simp: set_array_sort)
qed

lemma example_recommendations: "recommendations example_db 1 = Inr example_out"
  by code_simp

lemma example_subject: "findById example_db 1 = Some alice"
  by code_simp

section \<open>The recommendation claims\<close>

text \<open>
  Claim C1. Whatever the directory and the subject, no element of the output of the
  recommendation operation is a user whose identifier is among the subject's friends,
  its sent requests, its pending requests, or is the subject's own identifier; shared
  interests and mutual friends play no part in the statement.
\<close>

theorem recommendations_exclude:
  assumes "recommendations db me = Inr out" "findById db me = Some subject" "r \<in> set out"
  shows "uid (doc (rec_user r)) \<notin>
           set (friends subject) \<union> set (sentFriendRequests subject)
           \<union> set (pendingFriendRequests subject) \<union> {uid subject}"
proof -
  from recommendations_member [OF assms(1,3)] assms(2)
  obtain d where d: "d \<in> set (allPotentialUsers db subject)" and r: "rec_user r = d"
    by (auto simp: score_candidate_sel)
  from allPotentialUsers_member [OF d]
  have mem: "doc d \<in> set db" and ex: "uid (doc d) \<notin> set (excludeIds_of db subject)"
    by auto
  have "\<And>ids. uid (doc d) \<in> set ids \<Longrightarrow> uid (doc d) \<in> set (map uid (populate db ids))"
    using mem unfolding populate_ids by blast
  with ex show ?thesis
    unfolding r excludeIds_of_def by auto
qed

theorem recommendations_exclude_witness:
  "recommendations example_db 1 = Inr example_out \<and> findById example_db 1 = Some alice
   \<and> example_out ! 0 \<in> set example_out
   \<and> uid (doc (rec_user (example_out ! 0))) \<notin>
        set (friends alice) \<union> set (sentFriendRequests alice)
        \<union> set (pendingFriendRequests alice) \<union> {uid alice}"
proof -
  have h: "example_out ! 0 \<in> set example_out"
    by (simp add: example_out_def)
  show ?thesis
    using recommendations_exclude [OF example_recommendations example_subject h]
      example_recommendations example_subject h
    by simp
qed

text \<open>
  Claim C2, as the code has it at the input the claim is about. In \<open>overlap_db\<close> the
  user 3 shares an interest with the subject 1 and has the friend 2 in common with it,
  so both queries return it, as two objects. \<^verbatim>\<open>new Set\<close> keeps both, and the output
  lists user 3 twice, each time with its counts and score.
\<close>

theorem recommendations_duplicate_candidate:
  "map_sum id (map (\<lambda>r. (uid (doc (rec_user r)), mutualFriends r, mutualInterests r, score r)))
     (recommendations overlap_db 1)
   = Inr [(3, 1, 1, 3), (3, 1, 1, 3)]"
  by code_simp

text \<open>
  Claim C3, as stated, fails: with the subject's interests \<^verbatim>\<open>["chess", "chess"]\<close> and the
  candidate's \<^verbatim>\<open>["chess"]\<close> the count is 2, and the intersection of the two sets has one
  element.
\<close>

theorem mutualInterests_not_intersection_size:
  "recommendations repeat_db 1 = Inr [repeat_rec]
   \<and> mutualInterests repeat_rec \<noteq> spec_mutualInterestCount sam (doc (rec_user repeat_rec))"
  by code_simp

text \<open>
  Claim C3, amended. For every element of the output, the count of mutual interests
  is the number of entries of the subject's interests array, repeated entries counted
  each time, that occur in the candidate's interests array. When no string is repeated in
  the subject's array, that number is the size of the intersection of the two interest
  sets; repetitions in the candidate's array never change it.
\<close>

theorem mutualInterests_counts_subject_entries:
  assumes "recommendations db me = Inr out" "findById db me = Some subject" "r \<in> set out"
  shows "mutualInterests r =
           length (filter (\<lambda>i. i \<in> set (interests (doc (rec_user r)))) (interests subject))
         \<and> (distinct (interests subject) \<longrightarrow>
              mutualInterests r = spec_mutualInterestCount subject (doc (rec_user r)))"
proof -
  let ?c = "interests (doc (rec_user r))"
  from recommendations_member [OF assms(1,3)] assms(2)
  have "mutualInterests r = length (filter (\<lambda>i. i \<in> set ?c) (interests subject))"
    by (auto simp: score_candidate_sel)
  moreover have "distinct (interests subject) \<Longrightarrow>
      length (filter (\<lambda>i. i \<in> set ?c) (interests subject)) = card (set ?c \<inter> set (interests subject))"
    by (simp add: distinct_length_filter)
  ultimately show ?thesis
    by (simp add: spec_mutualInterestCount_def)
qed

theorem mutualInterests_counts_subject_entries_witness:
  "recommendations example_db 1 = Inr example_out \<and> findById example_db 1 = Some alice
   \<and> example_out ! 2 \<in> set example_out \<and> distinct (interests alice)
   \<and> mutualInterests (example_out ! 2) = 2
   \<and> mutualInterests (example_out ! 2)
       = spec_mutualInterestCount alice (doc (rec_user (example_out ! 2)))"
proof -
  have h: "example_out ! 2 \<in> set example_out"
    by (simp add: example_out_def)
  have d: "distinct (interests alice)"
    by code_simp
  have v: "mutualInterests (example_out ! 2) = 2"
    by code_simp
  show ?thesis
    using mutualInterests_counts_subject_entries [OF example_recommendations example_subject h]
      example_recommendations example_subject h d v
    by simp
qed

text \<open>
  Claim C4. Every element of the output has a score equal to twice its count of mutual
  friends plus its count of mutual interests, and a score above zero.
\<close>

theorem recommendations_score:
  assumes "recommendations db me = Inr out" "r \<in> set out"
  shows "score r = mutualFriends r * 2 + mutualInterests r \<and> 0 < score r"
  using recommendations_member [OF assms] by (auto simp: score_candidate_sel)

theorem recommendations_score_witness:
  "recommendations example_db 1 = Inr example_out \<and> example_out ! 0 \<in> set example_out
   \<and> score (example_out ! 0) = mutualFriends (example_out ! 0) * 2 + mutualInterests (example_out ! 0)
   \<and> 0 < score (example_out ! 0)"
proof -
  have h: "example_out ! 0 \<in> set example_out"
    by (simp add: example_out_def)
  show ?thesis
    using recommendations_score [OF example_recommendations h] example_recommendations h
    by blast
qed

text \<open>
  Claim C5. The output is ordered by score, non-increasing: at every two adjacent
  positions the score of the first is at least the score of the second.
\<close>

theorem recommendations_sorted:
  assumes "recommendations db me = Inr out" "Suc i < length out"
  shows "score (out ! Suc i) \<le> score (out ! i)"
proof -
  from assms(1) have "sorted_wrt (\<lambda>a b. score b \<le> score a) out"
    by (auto simp: recommendations_def array_sort_desc split: option.splits)
  then show ?thesis
    using assms(2) by (simp add: sorted_wrt_iff_nth_less)
qed

theorem recommendations_sorted_witness:
  "recommendations example_db 1 = Inr example_out \<and> Suc 1 < length example_out
   \<and> score (example_out ! Suc 1) \<le> score (example_out ! 1)"
proof -
  have h: "Suc 1 < length example_out"
    by (simp add: example_out_def)
  show ?thesis
    using recommendations_sorted [OF example_recommendations h] example_recommendations h
    by simp
qed

text \<open>
  Claim C6. The output has at most five elements, five being the cap the handler
  passes to \<^verbatim>\<open>slice\<close>.
\<close>

theorem recommendations_capped:
  "recommendations db me = Inr out \<Longrightarrow> length out \<le> 5"
  by (auto simp: recommendations_def split: option.splits)

theorem recommendations_capped_witness:
  "recommendations example_db 1 = Inr example_out \<and> length example_out \<le> 5"
  using recommendations_capped [OF example_recommendations] example_recommendations
  by simp

text \<open>
  Claim C7. The interest-based pool is empty when the subject has no interests, and
  the mutual-friend pool is empty when the subject has no friends; for a subject whose
  interests array and friends array are both empty the operation returns the empty
  sequence.
\<close>

theorem recommendations_empty_subject:
  assumes "findById db me = Some subject"
  shows "(interests subject = [] \<longrightarrow> similarInterestsUsers db subject = [])
       \<and> (friends subject = [] \<longrightarrow> mutualFriendsUsers n db subject = [])
       \<and> (interests subject = [] \<and> friends subject = [] \<longrightarrow> recommendations db me = Inr [])"
proof (intro conjI impI)
  assume "interests subject = []"
  then show "similarInterestsUsers db subject = []"
    by (simp add: similarInterestsUsers_def)
next
  assume "friends subject = []"
  then show "mutualFriendsUsers n db subject = []"
    by (simp add: mutualFriendsUsers_def populate_def)
next
  assume "interests subject = [] \<and> friends subject = []"
  with assms show "recommendations db me = Inr []"
    by (simp add: recommendations_def allPotentialUsers_def similarInterestsUsers_def
        mutualFriendsUsers_def populate_def array_sort_def)
qed

theorem recommendations_empty_subject_witness:
  "findById example_db 11 = Some kim \<and> interests kim = [] \<and> friends kim = []
   \<and> similarInterestsUsers example_db kim = [] \<and> mutualFriendsUsers 0 example_db kim = []
   \<and> recommendations example_db 11 = Inr []"
proof -
  have h1: "findById example_db 11 = Some kim" by code_simp
  have h2: "interests kim = []" by code_simp
  have h3: "friends kim = []" by code_simp
  show ?thesis
    using recommendations_empty_subject [OF h1, of 0] h1 h2 h3 by blast
qed

section \<open>Facts about the friend-request handlers\<close>

lemma send_request_cancel:
  assumes "findById db s = Some sender" "findById db r = Some receiver" "s \<noteq> r"
    "r \<notin> set (friends sender)" "r \<in> set (sentFriendRequests sender)"
  shows "fst (send_request db s (Some r)) =
           Inr \<lparr>message = ''Friend request cancelled'', status = ''cancelled''\<rparr>"
    and "\<exists>s1. findById (snd (send_request db s (Some r))) s = Some s1
           \<and> sentFriendRequests s1 = filter (\<lambda>i. i \<noteq> r) (sentFriendRequests sender)
           \<and> pendingFriendRequests s1 = pendingFriendRequests sender
           \<and> friends s1 = friends sender \<and> interests s1 = interests sender"
    and "\<exists>r1. findById (snd (send_request db s (Some r))) r = Some r1
           \<and> pendingFriendRequests r1 = filter (\<lambda>i. i \<noteq> s) (pendingFriendRequests receiver)
           \<and> sentFriendRequests r1 = sentFriendRequests receiver
           \<and> friends r1 = friends receiver \<and> interests r1 = interests receiver"
    and "i \<noteq> s \<Longrightarrow> i \<noteq> r \<Longrightarrow> findById (snd (send_request db s (Some r))) i = findById db i"
proof -
  from assms(1,2) have ids: "uid sender = s" "uid receiver = r"
    using findById_Some by auto
  have ne: "filter (\<lambda>i. i \<noteq> r) (sentFriendRequests sender) \<noteq> sentFriendRequests sender"
  proof
    assume "filter (\<lambda>i. i \<noteq> r) (sentFriendRequests sender) = sentFriendRequests sender"
    with assms(5) have "r \<in> set (filter (\<lambda>i. i \<noteq> r) (sentFriendRequests sender))"
      by simp
    then show False by simp
  qed
  show "fst (send_request db s (Some r)) =
          Inr \<lparr>message = ''Friend request cancelled'', status = ''cancelled''\<rparr>"
    using assms ids ne
    by (simp add: send_request_def save_assigned_def stale_def findById_store Let_def)
  show "\<exists>s1. findById (snd (send_request db s (Some r))) s = Some s1
           \<and> sentFriendRequests s1 = filter (\<lambda>i. i \<noteq> r) (sentFriendRequests sender)
           \<and> pendingFriendRequests s1 = pendingFriendRequests sender
           \<and> friends s1 = friends sender \<and> interests s1 = interests sender"
    using assms ids ne
    by (simp add: send_request_def save_assigned_def stale_def findById_store Let_def)
  show "\<exists>r1. findById (snd (send_request db s (Some r))) r = Some r1
           \<and> pendingFriendRequests r1 = filter (\<lambda>i. i \<noteq> s) (pendingFriendRequests receiver)
           \<and> sentFriendRequests r1 = sentFriendRequests receiver
           \<and> friends r1 = friends receiver \<and> interests r1 = interests receiver"
    using assms ids ne
    by (simp add: send_request_def save_assigned_def stale_def findById_store Let_def)
  show "i \<noteq> s \<Longrightarrow> i \<noteq> r \<Longrightarrow> findById (snd (send_request db s (Some r))) i = findById db i"
    using assms ids ne
    by (cases "findById db i")
       (auto simp: send_request_def save_assigned_def stale_def findById_store Let_def
             dest: findById_Some)
qed

lemma send_request_add:
  assumes "findById db s = Some sender" "findById db r = Some receiver" "s \<noteq> r"
    "r \<notin> set (friends sender)" "r \<notin> set (sentFriendRequests sender)"
  shows "fst (send_request db s (Some r)) =
           Inr \<lparr>message = ''Friend request sent'', status = ''requested''\<rparr>"
    and "\<exists>s1. findById (snd (send_request db s (Some r))) s = Some s1
           \<and> sentFriendRequests s1 = sentFriendRequests sender @ [r]
           \<and> pendingFriendRequests s1 = pendingFriendRequests sender
           \<and> friends s1 = friends sender \<and> interests s1 = interests sender"
    and "\<exists>r1. findById (snd (send_request db s (Some r))) r = Some r1
           \<and> pendingFriendRequests r1 = pendingFriendRequests receiver @ [s]
           \<and> sentFriendRequests r1 = sentFriendRequests receiver
           \<and> friends r1 = friends receiver \<and> interests r1 = interests receiver"
    and "i \<noteq> s \<Longrightarrow> i \<noteq> r \<Longrightarrow> findById (snd (send_request db s (Some r))) i = findById db i"
proof -
  from assms(1,2) have ids: "uid sender = s" "uid receiver = r"
    using findById_Some by auto
  show "fst (send_request db s (Some r)) =
          Inr \<lparr>message = ''Friend request sent'', status = ''requested''\<rparr>"
    using assms ids by (simp add: send_request_def)
  show "\<exists>s1. findById (snd (send_request db s (Some r))) s = Some s1
           \<and> sentFriendRequests s1 = sentFriendRequests sender @ [r]
           \<and> pendingFriendRequests s1 = pendingFriendRequests sender
           \<and> friends s1 = friends sender \<and> interests s1 = interests sender"
    using assms ids by (simp add: send_request_def findById_store)
  show "\<exists>r1. findById (snd (send_request db s (Some r))) r = Some r1
           \<and> pendingFriendRequests r1 = pendingFriendRequests receiver @ [s]
           \<and> sentFriendRequests r1 = sentFriendRequests receiver
           \<and> friends r1 = friends receiver \<and> interests r1 = interests receiver"
    using assms ids by (simp add: send_request_def findById_store)
  show "i \<noteq> s \<Longrightarrow> i \<noteq> r \<Longrightarrow> findById (snd (send_request db s (Some r))) i = findById db i"
    using assms ids
    by (cases "findById db i") (auto simp: send_request_def findById_store dest: findById_Some)
qed

lemma send_request_twice:
  assumes "findById db s = Some sender" "findById db r = Some receiver" "s \<noteq> r"
    "r \<notin> set (friends sender)"
    "r \<in> set (sentFriendRequests sender) \<longleftrightarrow> s \<in> set (pendingFriendRequests receiver)"
  shows "request_state (snd (send_request (snd (send_request db s (Some r))) s (Some r)))
           = request_state db"
proof (cases "r \<in> set (sentFriendRequests sender)")
  case True
  let ?db1 = "snd (send_request db s (Some r))"
  note one = send_request_cancel [OF assms(1-4) True]
  from one(2) obtain s1 where s1: "findById ?db1 s = Some s1"
    "sentFriendRequests s1 = filter (\<lambda>i. i \<noteq> r) (sentFriendRequests sender)"
    "pendingFriendRequests s1 = pendingFriendRequests sender"
    "friends s1 = friends sender" "interests s1 = interests sender"
    by blast
  from one(3) obtain r1 where r1: "findById ?db1 r = Some r1"
    "pendingFriendRequests r1 = filter (\<lambda>i. i \<noteq> s) (pendingFriendRequests receiver)"
    "sentFriendRequests r1 = sentFriendRequests receiver"
    "friends r1 = friends receiver" "interests r1 = interests receiver"
    by blast
  have a: "r \<notin> set (friends s1)" "r \<notin> set (sentFriendRequests s1)"
    using assms(4) s1 by auto
  note two = send_request_add [OF s1(1) r1(1) assms(3) a]
  show ?thesis
  proof
    fix i
    consider "i = s" | "i = r" | "i \<noteq> s" "i \<noteq> r" by blast
    then show "request_state (snd (send_request ?db1 s (Some r))) i = request_state db i"
    proof cases
      case 1
      then show ?thesis
        using two(2) s1 assms(1) True by (auto simp: request_state_def)
    next
      case 2
      then show ?thesis
        using two(3) r1 assms(2,5) True by (auto simp: request_state_def)
    next
      case 3
      then show ?thesis
        using two(4) one(4) by (simp add: request_state_def)
    qed
  qed
next
  case False
  let ?db1 = "snd (send_request db s (Some r))"
  note one = send_request_add [OF assms(1-4) False]
  from one(2) obtain s1 where s1: "findById ?db1 s = Some s1"
    "sentFriendRequests s1 = sentFriendRequests sender @ [r]"
    "pendingFriendRequests s1 = pendingFriendRequests sender"
    "friends s1 = friends sender" "interests s1 = interests sender"
    by blast
  from one(3) obtain r1 where r1: "findById ?db1 r = Some r1"
    "pendingFriendRequests r1 = pendingFriendRequests receiver @ [s]"
    "sentFriendRequests r1 = sentFriendRequests receiver"
    "friends r1 = friends receiver" "interests r1 = interests receiver"
    by blast
  have a: "r \<notin> set (friends s1)" "r \<in> set (sentFriendRequests s1)"
    using assms(4) s1 by auto
  note two = send_request_cancel [OF s1(1) r1(1) assms(3) a]
  from False assms(5) have notin: "s \<notin> set (pendingFriendRequests receiver)"
    by simp
  show ?thesis
  proof
    fix i
    consider "i = s" | "i = r" | "i \<noteq> s" "i \<noteq> r" by blast
    then show "request_state (snd (send_request ?db1 s (Some r))) i = request_state db i"
    proof cases
      case 1
      then show ?thesis
        using two(2) s1 assms(1) False by (auto simp: request_state_def)
    next
      case 2
      then show ?thesis
        using two(3) r1 assms(2) notin by (auto simp: request_state_def)
    next
      case 3
      then show ?thesis
        using two(4) one(4) by (simp add: request_state_def)
    qed
  qed
qed

text \<open>
  The mirror property holds of a directory whose request arrays are all empty, as after
  registrations only, and both handlers that write request arrays keep it, also when
  a save is refused.
\<close>

lemma mirrored_initial:
  assumes "\<And>u. u \<in> set db \<Longrightarrow> sentFriendRequests u = [] \<and> pendingFriendRequests u = []"
  shows "mirrored db"
  unfolding mirrored_def using assms by (auto dest!: findById_Some)

lemma stale_after_store:
  assumes "findById db (uid d) = Some d" "\<And>u. uid (f u) = uid u"
  shows "stale (store i f db) d \<longleftrightarrow> uid d = i"
  using assms by (auto simp: stale_def findById_store)

lemma mirrored_add:
  assumes "mirrored db"
  shows "mirrored (store s (\<lambda>u. u\<lparr>sentFriendRequests := sentFriendRequests u @ [r]\<rparr>)
                    (store r (\<lambda>u. u\<lparr>pendingFriendRequests := pendingFriendRequests u @ [s]\<rparr>) db))"
    (is "mirrored ?db'")
  unfolding mirrored_def
proof (intro allI impI)
  fix a b ua ub
  assume ne: "a \<noteq> b" and a: "findById ?db' a = Some ua" and b: "findById ?db' b = Some ub"
  from a obtain ua0 where a0: "findById db a = Some ua0"
    by (auto simp: findById_store)
  from b obtain ub0 where b0: "findById db b = Some ub0"
    by (auto simp: findById_store)
  from a0 b0 have ida: "uid ua0 = a" "uid ub0 = b"
    using findById_Some by auto
  from assms ne a0 b0
  have m: "b \<in> set (sentFriendRequests ua0) \<longleftrightarrow> a \<in> set (pendingFriendRequests ub0)"
    unfolding mirrored_def by blast
  show "b \<in> set (sentFriendRequests ua) \<longleftrightarrow> a \<in> set (pendingFriendRequests ub)"
    using a b a0 b0 m ne ida by (auto simp: findById_store split: if_splits)
qed

lemma mirrored_cancel_both:
  assumes "mirrored db" "findById db s = Some sender" "findById db r = Some receiver"
  shows "mirrored (store r (\<lambda>u. u\<lparr>pendingFriendRequests :=
                                    filter (\<lambda>i. i \<noteq> s) (pendingFriendRequests receiver)\<rparr>)
                    (store s (\<lambda>u. u\<lparr>sentFriendRequests :=
                                    filter (\<lambda>i. i \<noteq> r) (sentFriendRequests sender)\<rparr>) db))"
    (is "mirrored ?db'")
  unfolding mirrored_def
proof (intro allI impI)
  fix a b ua ub
  assume ne: "a \<noteq> b" and a: "findById ?db' a = Some ua" and b: "findById ?db' b = Some ub"
  from a obtain ua0 where a0: "findById db a = Some ua0"
    by (auto simp: findById_store)
  from b obtain ub0 where b0: "findById db b = Some ub0"
    by (auto simp: findById_store)
  from a0 b0 have ida: "uid ua0 = a" "uid ub0 = b"
    using findById_Some by auto
  from assms(1) ne a0 b0
  have m: "b \<in> set (sentFriendRequests ua0) \<longleftrightarrow> a \<in> set (pendingFriendRequests ub0)"
    unfolding mirrored_def by blast
  show "b \<in> set (sentFriendRequests ua) \<longleftrightarrow> a \<in> set (pendingFriendRequests ub)"
    using a b a0 b0 m ne ida assms(2,3) by (auto simp: findById_store split: if_splits)
qed

lemma mirrored_cancel_sent:
  assumes "mirrored db" "findById db s = Some sender" "findById db r = Some receiver"
    "s = r \<or> s \<notin> set (pendingFriendRequests receiver)"
  shows "mirrored (store s (\<lambda>u. u\<lparr>sentFriendRequests :=
                                    filter (\<lambda>i. i \<noteq> r) (sentFriendRequests sender)\<rparr>) db)"
    (is "mirrored ?db'")
  unfolding mirrored_def
proof (intro allI impI)
  fix a b ua ub
  assume ne: "a \<noteq> b" and a: "findById ?db' a = Some ua" and b: "findById ?db' b = Some ub"
  from a obtain ua0 where a0: "findById db a = Some ua0"
    by (auto simp: findById_store)
  from b obtain ub0 where b0: "findById db b = Some ub0"
    by (auto simp: findById_store)
  from a0 b0 have ida: "uid ua0 = a" "uid ub0 = b"
    using findById_Some by auto
  from assms(1) ne a0 b0
  have m: "b \<in> set (sentFriendRequests ua0) \<longleftrightarrow> a \<in> set (pendingFriendRequests ub0)"
    unfolding mirrored_def by blast
  show "b \<in> set (sentFriendRequests ua) \<longleftrightarrow> a \<in> set (pendingFriendRequests ub)"
    using a b a0 b0 m ne ida assms(2,3,4) by (auto simp: findById_store split: if_splits)
qed

lemma send_request_mirrored:
  assumes "mirrored db"
  shows "mirrored (snd (send_request db s p))"
proof (cases p)
  case None
  with assms show ?thesis by (simp add: send_request_def)
next
  case (Some r)
  show ?thesis
  proof (cases "findById db r")
    case None
    with Some assms show ?thesis by (simp add: send_request_def)
  next
    case recv: (Some receiver)
    show ?thesis
    proof (cases "findById db s")
      case None
      with Some recv assms show ?thesis by (simp add: send_request_def)
    next
      case sndr: (Some sender)
      from recv sndr have ids: "uid receiver = r" "uid sender = s"
        using findById_Some by auto
      let ?sent' = "filter (\<lambda>i. i \<noteq> r) (sentFriendRequests sender)"
      let ?pending' = "filter (\<lambda>i. i \<noteq> s) (pendingFriendRequests receiver)"
      let ?db1 = "store s (\<lambda>u. u\<lparr>sentFriendRequests := ?sent'\<rparr>) db"
      let ?db2 = "store r (\<lambda>u. u\<lparr>pendingFriendRequests := ?pending'\<rparr>) ?db1"
      consider (friend) "r \<in> set (friends sender)"
        | (add) "r \<notin> set (friends sender)" "r \<notin> set (sentFriendRequests sender)"
        | (cancel) "r \<notin> set (friends sender)" "r \<in> set (sentFriendRequests sender)"
        by blast
      then show ?thesis
      proof cases
        case friend
        with Some recv sndr ids assms show ?thesis by (simp add: send_request_def)
      next
        case add
        have "snd (send_request db s p) =
                store s (\<lambda>u. u\<lparr>sentFriendRequests := sentFriendRequests u @ [r]\<rparr>)
                  (store r (\<lambda>u. u\<lparr>pendingFriendRequests := pendingFriendRequests u @ [s]\<rparr>) db)"
          using Some recv sndr ids add by (simp add: send_request_def)
        then show ?thesis using mirrored_add [OF assms] by simp
      next
        case cancel
        have ne: "?sent' \<noteq> sentFriendRequests sender"
        proof
          assume "?sent' = sentFriendRequests sender"
          with cancel(2) have "r \<in> set ?sent'" by simp
          then show False by simp
        qed
        have fresh: "\<not> stale db sender"
          using sndr ids by (simp add: stale_def)
        have first: "save_assigned sender (?sent' \<noteq> sentFriendRequests sender)
                       (\<lambda>u. u\<lparr>sentFriendRequests := ?sent'\<rparr>) db = Some ?db1"
          using ne fresh ids by (simp add: save_assigned_def)
        have st: "stale ?db1 receiver \<longleftrightarrow> r = s"
          using stale_after_store [of db receiver "\<lambda>u. u\<lparr>sentFriendRequests := ?sent'\<rparr>" s]
            recv ids by simp
        have unch: "?pending' = pendingFriendRequests receiver
                      \<Longrightarrow> s \<notin> set (pendingFriendRequests receiver)"
        proof
          assume eq: "?pending' = pendingFriendRequests receiver"
            and "s \<in> set (pendingFriendRequests receiver)"
          then have "s \<in> set ?pending'" by simp
          then show False by simp
        qed
        consider (same) "?pending' = pendingFriendRequests receiver"
          | (self) "?pending' \<noteq> pendingFriendRequests receiver" "r = s"
          | (other) "?pending' \<noteq> pendingFriendRequests receiver" "r \<noteq> s"
          by blast
        then show ?thesis
        proof cases
          case same
          have "snd (send_request db s p) = ?db1"
            using Some recv sndr cancel first same ids
            by (simp add: send_request_def save_assigned_def Let_def)
          then show ?thesis
            using mirrored_cancel_sent [OF assms sndr recv] unch [OF same] by simp
        next
          case self
          from st self(2) have "stale ?db1 receiver" by simp
          then have "snd (send_request db s p) = ?db1"
            using Some recv sndr cancel first self(1) ids
            by (simp add: send_request_def save_assigned_def Let_def)
          then show ?thesis
            using mirrored_cancel_sent [OF assms sndr recv] self(2) by simp
        next
          case other
          from st other(2) have "\<not> stale ?db1 receiver" by simp
          then have "snd (send_request db s p) = ?db2"
            using Some recv sndr cancel first other(1) ids
            by (simp add: send_request_def save_assigned_def Let_def)
          then show ?thesis
            using mirrored_cancel_both [OF assms sndr recv] by simp
        qed
      qed
    qed
  qed
qed

lemma mirrored_accept_first:
  assumes "mirrored db" "findById db me = Some receiver"
  shows "mirrored (store me
           (\<lambda>u. (if filter (\<lambda>i. i \<noteq> me) (pendingFriendRequests receiver)
                       \<noteq> pendingFriendRequests receiver
                  then u\<lparr>pendingFriendRequests :=
                           filter (\<lambda>i. i \<noteq> me) (pendingFriendRequests receiver)\<rparr>
                  else u)\<lparr>friends := friends u @ [me]\<rparr>) db)"
    (is "mirrored ?db'")
  unfolding mirrored_def
proof (intro allI impI)
  fix a b ua ub
  assume ne: "a \<noteq> b" and a: "findById ?db' a = Some ua" and b: "findById ?db' b = Some ub"
  from a obtain ua0 where a0: "findById db a = Some ua0"
    by (auto simp: findById_store)
  from b obtain ub0 where b0: "findById db b = Some ub0"
    by (auto simp: findById_store)
  from a0 b0 have ida: "uid ua0 = a" "uid ub0 = b"
    using findById_Some by auto
  from assms(1) ne a0 b0
  have m: "b \<in> set (sentFriendRequests ua0) \<longleftrightarrow> a \<in> set (pendingFriendRequests ub0)"
    unfolding mirrored_def by blast
  show "b \<in> set (sentFriendRequests ua) \<longleftrightarrow> a \<in> set (pendingFriendRequests ub)"
    using a b a0 b0 m ne ida assms(2) by (auto simp: findById_store split: if_splits)
qed

lemma mirrored_accept_both:
  assumes "mirrored db" "findById db me = Some receiver" "findById db s = Some sender"
  shows "mirrored (store s
           (\<lambda>u. (if filter (\<lambda>i. i \<noteq> me) (sentFriendRequests sender)
                       \<noteq> sentFriendRequests sender
                  then u\<lparr>sentFriendRequests :=
                           filter (\<lambda>i. i \<noteq> me) (sentFriendRequests sender)\<rparr>
                  else u)\<lparr>friends := friends u @ [me]\<rparr>)
           (store me
             (\<lambda>u. (if filter (\<lambda>i. i \<noteq> s) (pendingFriendRequests receiver)
                         \<noteq> pendingFriendRequests receiver
                    then u\<lparr>pendingFriendRequests :=
                             filter (\<lambda>i. i \<noteq> s) (pendingFriendRequests receiver)\<rparr>
                    else u)\<lparr>friends := friends u @ [s]\<rparr>) db))"
    (is "mirrored ?db'")
  unfolding mirrored_def
proof (intro allI impI)
  fix a b ua ub
  assume ne: "a \<noteq> b" and a: "findById ?db' a = Some ua" and b: "findById ?db' b = Some ub"
  from a obtain ua0 where a0: "findById db a = Some ua0"
    by (auto simp: findById_store)
  from b obtain ub0 where b0: "findById db b = Some ub0"
    by (auto simp: findById_store)
  from a0 b0 have ida: "uid ua0 = a" "uid ub0 = b"
    using findById_Some by auto
  from assms(1) ne a0 b0
  have m: "b \<in> set (sentFriendRequests ua0) \<longleftrightarrow> a \<in> set (pendingFriendRequests ub0)"
    unfolding mirrored_def by blast
  have keepS: "\<And>x. x \<noteq> me \<Longrightarrow> x \<in> set (filter (\<lambda>i. i \<noteq> me) (sentFriendRequests sender))
                 \<longleftrightarrow> x \<in> set (sentFriendRequests sender)"
    by simp
  have unS: "filter (\<lambda>i. i \<noteq> me) (sentFriendRequests sender) = sentFriendRequests sender
               \<Longrightarrow> me \<notin> set (sentFriendRequests sender)"
    by (metis (mono_tags, lifting) mem_Collect_eq set_filter)
  have unP: "filter (\<lambda>i. i \<noteq> s) (pendingFriendRequests receiver) = pendingFriendRequests receiver
               \<Longrightarrow> s \<notin> set (pendingFriendRequests receiver)"
    by (metis (mono_tags, lifting) mem_Collect_eq set_filter)
  have sa: "sentFriendRequests ua =
              (if a = s then filter (\<lambda>i. i \<noteq> me) (sentFriendRequests sender)
               else sentFriendRequests ua0)"
    using a a0 ida assms(2,3) by (auto simp: findById_store split: if_splits)
  have pb: "pendingFriendRequests ub =
              (if b = me then filter (\<lambda>i. i \<noteq> s) (pendingFriendRequests receiver)
               else pendingFriendRequests ub0)"
    using b b0 ida assms(2,3) by (auto simp: findById_store split: if_splits)
  show "b \<in> set (sentFriendRequests ua) \<longleftrightarrow> a \<in> set (pendingFriendRequests ub)"
    using sa pb m ne a0 b0 assms(2,3) by auto
qed

lemma friends_of_assigned:
  "friends (if c then u\<lparr>pendingFriendRequests := x\<rparr> else u) = friends u"
  "friends (if c then u\<lparr>sentFriendRequests := y\<rparr> else u) = friends u"
  by simp_all

lemma accept_request_mirrored:
  assumes "mirrored db"
  shows "mirrored (snd (accept_request db me p))"
proof (cases p)
  case None
  with assms show ?thesis by (simp add: accept_request_def)
next
  case (Some s)
  show ?thesis
  proof (cases "findById db s")
    case None
    with Some assms show ?thesis by (simp add: accept_request_def)
  next
    case sndr: (Some sender)
    show ?thesis
    proof (cases "findById db me")
      case None
      with Some sndr assms show ?thesis by (simp add: accept_request_def)
    next
      case recv: (Some receiver)
      from recv sndr have ids: "uid receiver = me" "uid sender = s"
        using findById_Some by auto
      let ?pending' = "filter (\<lambda>i. i \<noteq> s) (pendingFriendRequests receiver)"
      let ?sent' = "filter (\<lambda>i. i \<noteq> me) (sentFriendRequests sender)"
      let ?f1 = "\<lambda>u. (if ?pending' \<noteq> pendingFriendRequests receiver
                      then u\<lparr>pendingFriendRequests := ?pending'\<rparr> else u)
                     \<lparr>friends := friends u @ [s]\<rparr>"
      let ?f2 = "\<lambda>u. (if ?sent' \<noteq> sentFriendRequests sender
                      then u\<lparr>sentFriendRequests := ?sent'\<rparr> else u)
                     \<lparr>friends := friends u @ [me]\<rparr>"
      let ?db1 = "store me ?f1 db"
      let ?db2 = "store s ?f2 ?db1"
      have fresh: "\<not> stale db receiver"
        using recv ids by (simp add: stale_def)
      have first: "save_mixed receiver (?pending' \<noteq> pendingFriendRequests receiver)
                     (\<lambda>u. u\<lparr>pendingFriendRequests := ?pending'\<rparr>)
                     (\<lambda>u. u\<lparr>friends := friends u @ [s]\<rparr>) db = Some ?db1"
        using fresh ids by (simp add: save_mixed_def friends_of_assigned)
      have st: "stale ?db1 sender \<longleftrightarrow> s = me"
        using stale_after_store [of db sender ?f1 me] sndr ids by auto
      consider (refused) "?sent' \<noteq> sentFriendRequests sender" "s = me"
        | (saved) "?sent' = sentFriendRequests sender \<or> s \<noteq> me"
        by blast
      then show ?thesis
      proof cases
        case refused
        from st refused(2) have "stale ?db1 sender" by simp
        then have "snd (accept_request db me p) = ?db1"
          using Some recv sndr first refused(1) ids
          by (simp add: accept_request_def save_mixed_def Let_def)
        moreover have "mirrored ?db1"
          using mirrored_accept_first [OF assms recv] unfolding refused(2) .
        ultimately show ?thesis by simp
      next
        case saved
        then have "\<not> (?sent' \<noteq> sentFriendRequests sender \<and> stale ?db1 sender)"
          using st by blast
        then have "save_mixed sender (?sent' \<noteq> sentFriendRequests sender)
                     (\<lambda>u. u\<lparr>sentFriendRequests := ?sent'\<rparr>)
                     (\<lambda>u. u\<lparr>friends := friends u @ [me]\<rparr>) ?db1 = Some ?db2"
          using ids by (simp add: save_mixed_def friends_of_assigned)
        then have "snd (accept_request db me p) = ?db2"
          using Some recv sndr first ids
          by (simp add: accept_request_def Let_def)
        then show ?thesis
          using mirrored_accept_both [OF assms recv sndr] by simp
      qed
    qed
  qed
qed

lemma accept_request_404:
  "(\<exists>msg. fst (accept_request db me p) = Inl (HttpError 404 msg))
     \<longleftrightarrow> (\<exists>i. p = Some i \<and> findById db i = None)"
  by (auto simp: accept_request_def save_mixed_def Let_def split: option.splits)

lemma accept_request_friends:
  assumes "findById db me = Some receiver" "findById db s = Some sender" "me \<noteq> s"
  shows "fst (accept_request db me (Some s)) = Inr ''Friend request accepted''"
    and "\<exists>r1. findById (snd (accept_request db me (Some s))) me = Some r1
           \<and> friends r1 = friends receiver @ [s]"
    and "\<exists>s1. findById (snd (accept_request db me (Some s))) s = Some s1
           \<and> friends s1 = friends sender @ [me]"
proof -
  from assms(1,2) have ids: "uid receiver = me" "uid sender = s"
    using findById_Some by auto
  show "fst (accept_request db me (Some s)) = Inr ''Friend request accepted''"
    using assms ids
    by (simp add: accept_request_def save_mixed_def stale_def findById_store Let_def)
  show "\<exists>r1. findById (snd (accept_request db me (Some s))) me = Some r1
           \<and> friends r1 = friends receiver @ [s]"
    using assms ids
    by (simp add: accept_request_def save_mixed_def stale_def findById_store Let_def)
  show "\<exists>s1. findById (snd (accept_request db me (Some s))) s = Some s1
           \<and> friends s1 = friends sender @ [me]"
    using assms ids
    by (simp add: accept_request_def save_mixed_def stale_def findById_store Let_def)
qed

section \<open>Facts about the search\<close>

lemma search_hits_shape:
  assumes "search regex db me q = (calls, Inr hits)"
  shows "hits = [] \<or> (\<exists>cu matches. hits = map (enhance cu)
            (take 10 (filter (\<lambda>u. matches (username u) \<and> uid u \<noteq> me) db)))"
  using assms by (auto simp: search_def Let_def split: option.splits if_splits)

section \<open>The claims about the friend-request handlers and the search\<close>

text \<open>
  Claim C8, as stated, fails in three ways. A user may send the request to itself: the
  first invocation answers \<^verbatim>\<open>requested\<close>, the second saves two copies of one document,
  the second save is refused, the answer is status 500 and the user's own identifier
  stays in its pending requests. Between two different users, cancelling and sending
  again moves the receiver to the end of the sender's array: \<^verbatim>\<open>[2, 3]\<close> becomes
  \<^verbatim>\<open>[3, 2]\<close>. And in a directory where the receiver has the sender pending without
  the sender's array holding the receiver, two invocations leave the receiver's pending
  requests empty.
\<close>

theorem send_request_not_toggle:
  "findById solo_db 1 = Some solo \<and> 1 \<notin> set (friends solo)
   \<and> fst (send_request solo_db 1 (Some 1)) =
       Inr \<lparr>message = ''Friend request sent'', status = ''requested''\<rparr>
   \<and> fst (send_request (snd (send_request solo_db 1 (Some 1))) 1 (Some 1)) =
       Inl (HttpError 500 ''Error managing friend request'')
   \<and> request_state (snd (send_request (snd (send_request solo_db 1 (Some 1))) 1 (Some 1))) 1
       \<noteq> request_state solo_db 1
   \<and> map_option sentFriendRequests (findById order_db 1) = Some [2, 3]
   \<and> map_option sentFriendRequests
         (findById (snd (send_request (snd (send_request order_db 1 (Some 2))) 1 (Some 2))) 1)
       = Some [3, 2]
   \<and> request_state (snd (send_request (snd (send_request skew_db 1 (Some 2))) 1 (Some 2))) 2
       \<noteq> request_state skew_db 2"
  by code_simp

text \<open>
  Claim C8, amended. Sending a friend request is a toggle between two different users.
  Let the sender and the receiver be two different stored users, the receiver not among
  the sender's friends. If the receiver is among the sender's sent requests, the
  operation answers \<^verbatim>\<open>cancelled\<close> and removes the receiver from the sender's sent
  requests and the sender from the receiver's pending requests; otherwise it answers
  \<^verbatim>\<open>requested\<close> and appends each to the other's array. Hence, when the receiver has the
  sender pending exactly when the sender's sent requests hold the receiver, two
  consecutive invocations leave every user with the request arrays it had, read as
  sets, and with its friends and interests.
\<close>

theorem send_request_toggle:
  assumes "findById db s = Some sender" "findById db r = Some receiver" "s \<noteq> r"
    "r \<notin> set (friends sender)"
  shows "(r \<in> set (sentFriendRequests sender) \<longrightarrow>
            fst (send_request db s (Some r)) =
              Inr \<lparr>message = ''Friend request cancelled'', status = ''cancelled''\<rparr>
          \<and> map_option sentFriendRequests (findById (snd (send_request db s (Some r))) s) =
              Some (filter (\<lambda>i. i \<noteq> r) (sentFriendRequests sender))
          \<and> map_option pendingFriendRequests (findById (snd (send_request db s (Some r))) r) =
              Some (filter (\<lambda>i. i \<noteq> s) (pendingFriendRequests receiver)))
       \<and> (r \<notin> set (sentFriendRequests sender) \<longrightarrow>
            fst (send_request db s (Some r)) =
              Inr \<lparr>message = ''Friend request sent'', status = ''requested''\<rparr>
          \<and> map_option sentFriendRequests (findById (snd (send_request db s (Some r))) s) =
              Some (sentFriendRequests sender @ [r])
          \<and> map_option pendingFriendRequests (findById (snd (send_request db s (Some r))) r) =
              Some (pendingFriendRequests receiver @ [s]))
       \<and> ((r \<in> set (sentFriendRequests sender) \<longleftrightarrow> s \<in> set (pendingFriendRequests receiver)) \<longrightarrow>
            request_state (snd (send_request (snd (send_request db s (Some r))) s (Some r)))
              = request_state db)"
proof (intro conjI impI)
  assume c: "r \<in> set (sentFriendRequests sender)"
  note one = send_request_cancel [OF assms c]
  show "fst (send_request db s (Some r)) =
          Inr \<lparr>message = ''Friend request cancelled'', status = ''cancelled''\<rparr>"
    by (rule one(1))
  show "map_option sentFriendRequests (findById (snd (send_request db s (Some r))) s) =
          Some (filter (\<lambda>i. i \<noteq> r) (sentFriendRequests sender))"
    using one(2) by auto
  show "map_option pendingFriendRequests (findById (snd (send_request db s (Some r))) r) =
          Some (filter (\<lambda>i. i \<noteq> s) (pendingFriendRequests receiver))"
    using one(3) by auto
next
  assume c: "r \<notin> set (sentFriendRequests sender)"
  note one = send_request_add [OF assms c]
  show "fst (send_request db s (Some r)) =
          Inr \<lparr>message = ''Friend request sent'', status = ''requested''\<rparr>"
    by (rule one(1))
  show "map_option sentFriendRequests (findById (snd (send_request db s (Some r))) s) =
          Some (sentFriendRequests sender @ [r])"
    using one(2) by auto
  show "map_option pendingFriendRequests (findById (snd (send_request db s (Some r))) r) =
          Some (pendingFriendRequests receiver @ [s])"
    using one(3) by auto
next
  assume "r \<in> set (sentFriendRequests sender) \<longleftrightarrow> s \<in> set (pendingFriendRequests receiver)"
  with assms
  show "request_state (snd (send_request (snd (send_request db s (Some r))) s (Some r)))
          = request_state db"
    by (rule send_request_twice)
qed

theorem send_request_toggle_witness:
  "findById example_db 1 = Some alice \<and> findById example_db 7 = Some grace
   \<and> findById example_db 5 = Some erin \<and> 7 \<notin> set (friends alice) \<and> 5 \<notin> set (friends alice)
   \<and> 7 \<notin> set (sentFriendRequests alice) \<and> 1 \<notin> set (pendingFriendRequests grace)
   \<and> 5 \<in> set (sentFriendRequests alice) \<and> 1 \<in> set (pendingFriendRequests erin)
   \<and> fst (send_request example_db 1 (Some 7)) =
       Inr \<lparr>message = ''Friend request sent'', status = ''requested''\<rparr>
   \<and> request_state (snd (send_request (snd (send_request example_db 1 (Some 7))) 1 (Some 7)))
       = request_state example_db
   \<and> fst (send_request example_db 1 (Some 5)) =
       Inr \<lparr>message = ''Friend request cancelled'', status = ''cancelled''\<rparr>
   \<and> request_state (snd (send_request (snd (send_request example_db 1 (Some 5))) 1 (Some 5)))
       = request_state example_db"
proof -
  have g: "findById example_db 7 = Some grace" by code_simp
  have e: "findById example_db 5 = Some erin" by code_simp
  have n7: "(1::nat) \<noteq> 7" and n5: "(1::nat) \<noteq> 5" by simp_all
  have f7: "7 \<notin> set (friends alice)" and f5: "5 \<notin> set (friends alice)" by code_simp+
  have s7: "7 \<notin> set (sentFriendRequests alice)" and p7: "1 \<notin> set (pendingFriendRequests grace)"
    by code_simp+
  have s5: "5 \<in> set (sentFriendRequests alice)" and p5: "1 \<in> set (pendingFriendRequests erin)"
    by code_simp+
  show ?thesis
    using send_request_toggle [OF example_subject g n7 f7]
      send_request_toggle [OF example_subject e n5 f5]
      example_subject g e f7 f5 s7 p7 s5 p5
    by blast
qed

text \<open>
  Claim C9, as stated, fails in two ways. A route parameter that is no ObjectId names
  no stored user, and the answer is status 500, not 404. And a user that has sent the
  request to itself and accepts it gets status 500: the handler saves two copies of
  one document and the second save is refused.
\<close>

theorem accept_request_not_unconditional:
  "findById solo_db 1 = Some solo
   \<and> fst (accept_request solo_db 1 None) = Inl (HttpError 500 ''Error accepting friend request'')
   \<and> fst (send_request solo_db 1 (Some 1)) =
       Inr \<lparr>message = ''Friend request sent'', status = ''requested''\<rparr>
   \<and> map_option uid (findById (snd (send_request solo_db 1 (Some 1))) 1) = Some 1
   \<and> fst (accept_request (snd (send_request solo_db 1 (Some 1))) 1 (Some 1)) =
       Inl (HttpError 500 ''Error accepting friend request'')"
  by code_simp

text \<open>
  Claim C9, amended. Accepting a friend request answers 404 exactly when the route
  parameter is an identifier of no stored user. For a stored caller and a stored sender
  other than the caller it succeeds, whether or not a request from that sender is
  pending, and appends each user to the other's friends array; a second acceptance
  succeeds again, and leaves the sender twice at the end of the receiver's friends and
  the receiver twice at the end of the sender's.
\<close>

theorem accept_request_unconditional:
  "((\<exists>msg. fst (accept_request db me p) = Inl (HttpError 404 msg))
      \<longleftrightarrow> (\<exists>i. p = Some i \<and> findById db i = None))
   \<and> (findById db me = Some receiver \<and> findById db s = Some sender \<and> me \<noteq> s \<longrightarrow>
        fst (accept_request db me (Some s)) = Inr ''Friend request accepted''
        \<and> map_option friends (findById (snd (accept_request db me (Some s))) me)
            = Some (friends receiver @ [s])
        \<and> map_option friends (findById (snd (accept_request db me (Some s))) s)
            = Some (friends sender @ [me])
        \<and> fst (accept_request (snd (accept_request db me (Some s))) me (Some s))
            = Inr ''Friend request accepted''
        \<and> map_option friends
              (findById (snd (accept_request (snd (accept_request db me (Some s))) me (Some s))) me)
            = Some (friends receiver @ [s, s])
        \<and> map_option friends
              (findById (snd (accept_request (snd (accept_request db me (Some s))) me (Some s))) s)
            = Some (friends sender @ [me, me]))"
proof (intro conjI impI)
  show "(\<exists>msg. fst (accept_request db me p) = Inl (HttpError 404 msg))
          \<longleftrightarrow> (\<exists>i. p = Some i \<and> findById db i = None)"
    by (rule accept_request_404)
next
  assume hyp: "findById db me = Some receiver \<and> findById db s = Some sender \<and> me \<noteq> s"
  then have r: "findById db me = Some receiver" and s: "findById db s = Some sender"
    and ne: "me \<noteq> s"
    by simp_all
  let ?db1 = "snd (accept_request db me (Some s))"
  note one = accept_request_friends [OF r s ne]
  from one(2) obtain r1 where r1: "findById ?db1 me = Some r1" "friends r1 = friends receiver @ [s]"
    by blast
  from one(3) obtain s1 where s1: "findById ?db1 s = Some s1" "friends s1 = friends sender @ [me]"
    by blast
  note two = accept_request_friends [OF r1(1) s1(1) ne]
  show "fst (accept_request db me (Some s)) = Inr ''Friend request accepted''"
    by (rule one(1))
  show "fst (accept_request ?db1 me (Some s)) = Inr ''Friend request accepted''"
    by (rule two(1))
  show "map_option friends (findById ?db1 me) = Some (friends receiver @ [s])"
    using r1 by simp
  show "map_option friends (findById ?db1 s) = Some (friends sender @ [me])"
    using s1 by simp
  show "map_option friends (findById (snd (accept_request ?db1 me (Some s))) me)
          = Some (friends receiver @ [s, s])"
    using two(2) r1 by auto
  show "map_option friends (findById (snd (accept_request ?db1 me (Some s))) s)
          = Some (friends sender @ [me, me])"
    using two(3) s1 by auto
qed

theorem accept_request_unconditional_witness:
  "findById example_db 1 = Some alice \<and> findById example_db 7 = Some grace \<and> (1::nat) \<noteq> 7
   \<and> 7 \<notin> set (pendingFriendRequests alice)
   \<and> fst (accept_request example_db 1 (Some 7)) = Inr ''Friend request accepted''
   \<and> map_option friends
         (findById (snd (accept_request (snd (accept_request example_db 1 (Some 7))) 1 (Some 7))) 1)
       = Some (friends alice @ [7, 7])
   \<and> map_option friends
         (findById (snd (accept_request (snd (accept_request example_db 1 (Some 7))) 1 (Some 7))) 7)
       = Some (friends grace @ [1, 1])
   \<and> findById example_db 12 = None
   \<and> (\<exists>msg. fst (accept_request example_db 1 (Some 12)) = Inl (HttpError 404 msg))"
proof -
  have g: "findById example_db 7 = Some grace" by code_simp
  have n: "(1::nat) \<noteq> 7" by simp
  have p: "7 \<notin> set (pendingFriendRequests alice)" by code_simp
  have m: "findById example_db 12 = None" by code_simp
  show ?thesis
    using accept_request_unconditional [of example_db 1 "Some 7" alice 7 grace]
      accept_request_unconditional [of example_db 1 "Some 12" alice 7 grace]
      example_subject g n p m
    by blast
qed

text \<open>
  Claim C10. The search never returns the requesting user and returns at most ten
  users; when the \<^verbatim>\<open>username\<close> parameter is absent or empty it returns the empty list
  and makes no call to the directory.
\<close>

theorem search_bounds:
  "(search regex db me q = (calls, Inr hits) \<longrightarrow>
      (\<forall>h \<in> set hits. hit_id h \<noteq> me) \<and> length hits \<le> 10)
   \<and> (q = None \<or> q = Some [] \<longrightarrow> search regex db me q = ([], Inr []))"
proof (intro conjI impI)
  assume run: "search regex db me q = (calls, Inr hits)"
  show "\<forall>h \<in> set hits. hit_id h \<noteq> me"
  proof
    fix h
    assume "h \<in> set hits"
    with search_hits_shape [OF run] obtain cu matches u
      where h: "h = enhance cu u"
        and u: "u \<in> set (take 10 (filter (\<lambda>u. matches (username u) \<and> uid u \<noteq> me) db))"
      by auto
    from take_filter_holds [OF u] have "uid u \<noteq> me"
      by simp
    with h show "hit_id h \<noteq> me"
      by (simp add: enhance_def)
  qed
  from search_hits_shape [OF run] show "length hits \<le> 10"
    by auto
next
  assume "q = None \<or> q = Some []"
  then show "search regex db me q = ([], Inr [])"
    by (auto simp: search_def)
qed

theorem search_bounds_witness:
  "search literal_regex example_db 3 (Some ''c'') =
     ([FindById 3, Find ''^c'' ''i'' 3 10], Inr [])
   \<and> search literal_regex example_db 1 (Some ''c'') =
     ([FindById 1, Find ''^c'' ''i'' 1 10], Inr [enhance alice carol])
   \<and> hit_id (enhance alice carol) \<noteq> 1 \<and> length [enhance alice carol] \<le> 10
   \<and> search literal_regex example_db 1 None = ([], Inr [])
   \<and> search literal_regex example_db 1 (Some []) = ([], Inr [])"
proof -
  have a: "search literal_regex example_db 3 (Some ''c'') =
             ([FindById 3, Find ''^c'' ''i'' 3 10], Inr [])"
    by code_simp
  have b: "search literal_regex example_db 1 (Some ''c'') =
             ([FindById 1, Find ''^c'' ''i'' 1 10], Inr [enhance alice carol])"
    by code_simp
  show ?thesis
    using search_bounds [of literal_regex example_db 1 "Some ''c''"
        "[FindById 1, Find ''^c'' ''i'' 1 10]" "[enhance alice carol]"]
      search_bounds [of literal_regex example_db 1 None "[]" "[]"]
      search_bounds [of literal_regex example_db 1 "Some []" "[]" "[]"]
      a b
    by simp
qed

end
